theory Spec2Isabelle
  imports Main
begin

section \<open>Python values, errors and slicing\<close>

text \<open>
  The exceptions that \<^verbatim>\<open>buffer.py\<close> can raise by itself. A failure of a collaborator
  (model inference, corpus access) is whatever error the collaborator returns.
\<close>

datatype error = AssertionError | TypeError | ZeroDivisionError | IndexError | RuntimeError

text \<open>
  The Python values the embedding distinguishes for the untyped \<^verbatim>\<open>layers\<close> argument:
  an element of a layer list is \<^verbatim>\<open>None\<close>, an int or a str; the argument itself is
  such an element or a list of them.
\<close>

datatype atom = ANone | AInt int | AStr string









text \<open>
  The bounds of the slice \<^verbatim>\<open>xs[start:stop]\<close> on a sequence of length \<open>n\<close>: a negative
  index counts from the end, and both ends are clamped into \<open>0..n\<close>.
\<close>

definition clamp_index :: "nat \<Rightarrow> int \<Rightarrow> nat" where
  "clamp_index n i =
     (if i < 0 then (if i + int n < 0 then 0 else nat (i + int n))
      else if int n < i then n else nat i)"

definition py_slice :: "'x list \<Rightarrow> int \<Rightarrow> int \<Rightarrow> 'x list" where
  "py_slice xs start stop =
     (let lo = clamp_index (length xs) start; hi = clamp_index (length xs) stop
      in take (hi - lo) (drop lo xs))"

text \<open>
  \<^verbatim>\<open>ceil(a / b)\<close> for ints \<open>a\<close> and \<open>b \<noteq> 0\<close>. Python divides in floating point here;
  the quotient is taken exactly, as it is for operands below \<open>2 ^ 53\<close>.
\<close>

definition ceil_div :: "int \<Rightarrow> int \<Rightarrow> int" where
  "ceil_div a b = - ((- a) div b)"

section \<open>Tensors\<close>

text \<open>
  A tensor of shape \<open>(length rows, n_layers, width)\<close>: the trailing dimensions are kept
  beside the nested lists, since a tensor with no rows still has them.
\<close>

record 'a tensor =
  n_layers :: nat
  width :: nat
  rows :: "'a list list list"

definition shape :: "'a tensor \<Rightarrow> nat list" where
  "shape t = [length (rows t), n_layers t, width t]"

definition wf_tensor :: "'a tensor \<Rightarrow> bool" where
  "wf_tensor t =
     (\<forall>r \<in> set (rows t). length r = n_layers t \<and> (\<forall>v \<in> set r. length v = width t))"

text \<open>\<^verbatim>\<open>torch.zeros((n, l, w))\<close>; a negative dimension is a \<^verbatim>\<open>RuntimeError\<close>.\<close>

definition zeros :: "int \<Rightarrow> nat \<Rightarrow> int \<Rightarrow> error + ('a::zero) tensor" where
  "zeros n l w =
     (if n < 0 \<or> w < 0 then Inl RuntimeError
      else Inr \<lparr>n_layers = l, width = nat w,
                rows = replicate (nat n) (replicate l (replicate (nat w) 0))\<rparr>)"

text \<open>
  \<^verbatim>\<open>torch.roll(t, shift, 0)\<close>: the row at index \<open>i\<close> moves to index
  \<open>(i + shift) mod n\<close>. The result is a new tensor.
\<close>

definition roll :: "'a tensor \<Rightarrow> int \<Rightarrow> 'a tensor" where
  "roll t shift = t\<lparr>rows := rotate (nat ((- shift) mod int (length (rows t)))) (rows t)\<rparr>"

text \<open>\<^verbatim>\<open>t[start:stop]\<close> along the first dimension.\<close>

definition tensor_slice :: "'a tensor \<Rightarrow> int \<Rightarrow> int \<Rightarrow> 'a tensor" where
  "tensor_slice t start stop = t\<lparr>rows := py_slice (rows t) start stop\<rparr>"

text \<open>\<^verbatim>\<open>t[i]\<close> for an int \<open>i\<close>: a negative index counts from the end.\<close>

definition tensor_index :: "'a tensor \<Rightarrow> int \<Rightarrow> error + 'a list list" where
  "tensor_index t i =
     (let n = int (length (rows t)); j = (if i < 0 then i + n else i)
      in if 0 \<le> j \<and> j < n then Inr (rows t ! nat j) else Inl IndexError)"

text \<open>
  Broadcasting, as a slice assignment applies it to its right-hand side: a dimension of
  the source must equal the target's or be 1, and a dimension of 1 is repeated.
\<close>

definition broadcastable :: "nat \<Rightarrow> nat \<Rightarrow> bool" where
  "broadcastable m n = (m = n \<or> m = 1)"

definition stretch :: "nat \<Rightarrow> 'x list \<Rightarrow> 'x list" where
  "stretch n xs = (if length xs = n then xs else replicate n (hd xs))"

definition expand :: "nat \<Rightarrow> nat \<Rightarrow> nat \<Rightarrow> 'a tensor \<Rightarrow> 'a tensor option" where
  "expand d l w t =
     (if broadcastable (length (rows t)) d \<and> broadcastable (n_layers t) l
         \<and> broadcastable (width t) w
      then Some \<lparr>n_layers = l, width = w,
                 rows = stretch d (map (\<lambda>r. stretch l (map (stretch w) r)) (rows t))\<rparr>
      else None)"

text \<open>
  \<^verbatim>\<open>t[start:stop] = src\<close>, in place: \<open>None\<close> is the \<^verbatim>\<open>RuntimeError\<close> of a source
  that does not broadcast to the shape of the target slice.
\<close>

definition setitem_slice :: "'a tensor \<Rightarrow> int \<Rightarrow> int \<Rightarrow> 'a tensor \<Rightarrow> 'a tensor option" where
  "setitem_slice t start stop src =
     (let lo = clamp_index (length (rows t)) start;
          hi = clamp_index (length (rows t)) stop
      in case expand (hi - lo) (n_layers t) (width t) src of
           None \<Rightarrow> None
         | Some v \<Rightarrow> Some (t\<lparr>rows := take lo (rows t) @ rows v @ drop (lo + (hi - lo)) (rows t)\<rparr>))"

text \<open>
  The stacked activations of one model call, of shape
  \<open>(length a_seqs, a_pos, a_layers, a_width)\<close>.
\<close>

record 'a acts =
  a_pos :: nat
  a_layers :: nat
  a_width :: nat
  a_seqs :: "'a list list list list"

definition wf_acts :: "'a acts \<Rightarrow> bool" where
  "wf_acts a =
     (\<forall>s \<in> set (a_seqs a). length s = a_pos a \<and>
        (\<forall>r \<in> set s. length r = a_layers a \<and> (\<forall>v \<in> set r. length v = a_width a)))"

text \<open>\<^verbatim>\<open>acts[:, idx].flatten(0, 1)\<close>: the positions \<open>idx\<close> of every sequence, in order.\<close>

definition sample :: "'a acts \<Rightarrow> nat list \<Rightarrow> 'a tensor" where
  "sample a idx =
     \<lparr>n_layers = a_layers a, width = a_width a,
      rows = concat (map (\<lambda>s. map (\<lambda>i. s ! i) idx) (a_seqs a))\<rparr>"

section \<open>ActivationsBufferConfig\<close>

record config =
  model_name :: string
  layers :: "atom list"
  dataset_name :: string
  act_names :: "string list"
  dataset_split :: "string option"
  buffer_size :: int
  min_capacity :: int
  model_batch_size :: int
  samples_per_seq :: int
  act_size :: "int option"
  seed :: "int option"
  device :: string
  dtype :: string
  final_layer :: atom


section \<open>ActivationsBuffer\<close>

text \<open>
  The collaborators: the shuffled and flattened corpus (its \<^verbatim>\<open>text\<close> column), the model's
  \<^verbatim>\<open>d_mlp\<close>, one model call with the stacking of the captured activations, and torch's
  global random generator, whose state has type \<open>'g\<close>.
\<close>

record ('a, 'g) env =
  load_dataset :: "string \<Rightarrow> string option \<Rightarrow> int option \<Rightarrow> string list"
  d_mlp :: int
  run_with_cache :: "string list \<Rightarrow> int \<Rightarrow> string list \<Rightarrow> error + 'a acts"
  manual_seed :: "int \<Rightarrow> 'g"
  randperm :: "'g \<Rightarrow> nat \<Rightarrow> nat list \<times> 'g"

text \<open>
  The buffer object. Tensors live in \<open>heap\<close> under their identity; \<open>buffer\<close> is the
  reference held by \<^verbatim>\<open>self.buffer\<close>, and \<open>next_id\<close> the identity of the next tensor to be
  allocated. \<open>stdout\<close> collects what \<^verbatim>\<open>print\<close> writes.
\<close>

record ('a, 'g) buffer_state =
  cfg :: config
  dataset :: "string list"
  heap :: "nat \<Rightarrow> 'a tensor"
  next_id :: nat
  buffer :: nat
  buffer_pointer :: int
  dataset_pointer :: int
  rng :: 'g
  stdout :: "string list"

text \<open>The sequences one round reads from the corpus, and its batch size.\<close>

definition round_batch_size :: "('a, 'g) buffer_state \<Rightarrow> int" where
  "round_batch_size s =
     min (ceil_div (buffer_pointer s) (samples_per_seq (cfg s))) (model_batch_size (cfg s))"

definition round_seqs :: "('a, 'g) buffer_state \<Rightarrow> string list" where
  "round_seqs s =
     py_slice (dataset s) (dataset_pointer s) (dataset_pointer s + round_batch_size s)"

text \<open>One round of the loop of \<^verbatim>\<open>refresh\<close>.\<close>

definition refresh_round ::
  "('a, 'g) env \<Rightarrow> ('a, 'g) buffer_state \<Rightarrow> error + ('a, 'g) buffer_state" where
  "refresh_round e s =
     (if samples_per_seq (cfg s) = 0 then Inl ZeroDivisionError
      else if length (dataset s) = 0 then Inl ZeroDivisionError
      else
        (case final_layer (cfg s) of
           AInt fl \<Rightarrow>
             (case run_with_cache e (round_seqs s) (fl + 1) (act_names (cfg s)) of
                Inl err \<Rightarrow> Inl err
              | Inr stacked \<Rightarrow>
                  (let (perm, g) = randperm e (rng s) (a_pos stacked);
                       acts = sample stacked (py_slice perm 0 (samples_per_seq (cfg s)));
                       write_pointer = buffer_size (cfg s) - buffer_pointer s;
                       new_acts = min (int (length (rows acts))) (buffer_pointer s)
                   in case setitem_slice (heap s (buffer s)) write_pointer
                             (write_pointer + int (length (rows acts)))
                             (tensor_slice acts 0 new_acts) of
                        None \<Rightarrow> Inl RuntimeError
                      | Some t \<Rightarrow>
                          Inr (s\<lparr>heap := (heap s)(buffer s := t),
                                 buffer_pointer := buffer_pointer s - new_acts,
                                 dataset_pointer :=
                                   (dataset_pointer s + round_batch_size s)
                                     mod int (length (dataset s)),
                                 rng := g\<rparr>)))
         | _ \<Rightarrow> Inl TypeError))"

text \<open>The loop of \<^verbatim>\<open>refresh\<close>; \<open>None\<close> when it runs forever.\<close>

partial_function (option) refresh_loop ::
  "('a, 'g) env \<Rightarrow> ('a, 'g) buffer_state \<Rightarrow> (error + ('a, 'g) buffer_state) option" where
  "refresh_loop e s =
     (if 0 < buffer_pointer s then
        (case refresh_round e s of
           Inl err \<Rightarrow> Some (Inl err)
         | Inr s' \<Rightarrow> refresh_loop e s')
      else Some (Inr s))"

text \<open>
  \<^verbatim>\<open>refresh\<close>: \<^verbatim>\<open>torch.roll\<close> allocates the rotated tensor and \<^verbatim>\<open>self.buffer\<close> is
  rebound to it; the loop then writes into that tensor.
\<close>

definition refresh ::
  "('a, 'g) env \<Rightarrow> ('a, 'g) buffer_state \<Rightarrow> (error + ('a, 'g) buffer_state) option" where
  "refresh e s =
     (case refresh_loop e
             (s\<lparr>heap := (heap s)(next_id s := roll (heap s (buffer s)) (- buffer_pointer s)),
                next_id := Suc (next_id s),
                buffer := next_id s\<rparr>) of
        None \<Rightarrow> None
      | Some (Inl err) \<Rightarrow> Some (Inl err)
      | Some (Inr s') \<Rightarrow>
          (if buffer_pointer s' = 0 then Some (Inr s') else Some (Inl AssertionError)))"

text \<open>What \<^verbatim>\<open>next\<close> returns: one vector of shape (layers, width), or a tensor.\<close>

datatype 'a out = Vector nat nat "'a list list" | Batch "'a tensor"

fun out_shape :: "'a out \<Rightarrow> nat list" where
  "out_shape (Vector l w r) = [l, w]"
| "out_shape (Batch t) = shape t"

text \<open>\<^verbatim>\<open>batch or 1\<close>: \<^verbatim>\<open>None\<close> and 0 are both falsy.\<close>

definition batch_or_1 :: "int option \<Rightarrow> int" where
  "batch_or_1 batch = (case batch of None \<Rightarrow> 1 | Some b \<Rightarrow> if b = 0 then 1 else b)"

text \<open>The condition of the first statement of \<^verbatim>\<open>next\<close>.\<close>

definition low_water :: "('a, 'g) buffer_state \<Rightarrow> int option \<Rightarrow> bool" where
  "low_water s batch =
     (buffer_size (cfg s) - (buffer_pointer s + batch_or_1 batch) < min_capacity (cfg s))"

text \<open>The first statement of \<^verbatim>\<open>next\<close>: the notice and the refresh, when due.\<close>

definition next_refresh ::
  "('a, 'g) env \<Rightarrow> ('a, 'g) buffer_state \<Rightarrow> int option
     \<Rightarrow> (error + ('a, 'g) buffer_state) option" where
  "next_refresh e s batch =
     (if low_water s batch
      then refresh e (s\<lparr>stdout := stdout s @ [''Refreshing the buffer!'']\<rparr>)
      else Some (Inr s))"

text \<open>The rest of \<^verbatim>\<open>next\<close>: the read and the advance of the pointer.\<close>

definition next_read ::
  "('a, 'g) buffer_state \<Rightarrow> int option \<Rightarrow> error + 'a out \<times> ('a, 'g) buffer_state" where
  "next_read s batch =
     (let t = heap s (buffer s);
          s' = s\<lparr>buffer_pointer := buffer_pointer s + batch_or_1 batch\<rparr>
      in case batch of
           None \<Rightarrow>
             (case tensor_index t (buffer_pointer s) of
                Inl err \<Rightarrow> Inl err
              | Inr r \<Rightarrow> Inr (Vector (n_layers t) (width t) r, s'))
         | Some b \<Rightarrow>
             Inr (Batch (tensor_slice t (buffer_pointer s) (buffer_pointer s + b)), s'))"

text \<open>\<^verbatim>\<open>ActivationsBuffer.next\<close>.\<close>

definition next_acts ::
  "('a, 'g) env \<Rightarrow> ('a, 'g) buffer_state \<Rightarrow> int option
     \<Rightarrow> (error + 'a out \<times> ('a, 'g) buffer_state) option" where
  "next_acts e s batch =
     (case next_refresh e s batch of
        None \<Rightarrow> None
      | Some (Inl err) \<Rightarrow> Some (Inl err)
      | Some (Inr s') \<Rightarrow> Some (next_read s' batch))"

text \<open>\<^verbatim>\<open>if cfg.seed: torch.manual_seed(cfg.seed)\<close> on the generator state \<open>g\<close>.\<close>

definition seed_rng :: "('a, 'g) env \<Rightarrow> int option \<Rightarrow> 'g \<Rightarrow> 'g" where
  "seed_rng e sd g =
     (case sd of None \<Rightarrow> g | Some n \<Rightarrow> if n \<noteq> 0 then manual_seed e n else g)"

text \<open>
  \<^verbatim>\<open>ActivationsBuffer.__init__\<close>, from the state \<open>g\<close> torch's global generator is in when
  the constructor is called. The tensor \<^verbatim>\<open>torch.zeros(...).to(cfg.device)\<close> leaves in
  \<^verbatim>\<open>self.buffer\<close> is the tensor 0 of the heap.
\<close>

definition ActivationsBuffer_init ::
  "('a::zero, 'g) env \<Rightarrow> config \<Rightarrow> 'g \<Rightarrow> (error + ('a, 'g) buffer_state) option" where
  "ActivationsBuffer_init e c g =
     (let w = (case act_size c of None \<Rightarrow> d_mlp e | Some a \<Rightarrow> a)
      in case zeros (buffer_size c) (length (layers c)) w of
           Inl err \<Rightarrow> Some (Inl err)
         | Inr z \<Rightarrow>
             refresh e
               \<lparr>cfg = c\<lparr>act_size := Some w\<rparr>,
                dataset = load_dataset e (dataset_name c) (dataset_split c) (seed c),
                heap = (\<lambda>_. \<lparr>n_layers = 0, width = 0, rows = []\<rparr>)(0 := z),
                next_id = 1,
                buffer = 0,
                buffer_pointer = buffer_size c,
                dataset_pointer = 0,
                rng = seed_rng e (seed c) g,
                stdout = []\<rparr>)"

declare refresh_loop.simps [code]

section \<open>The invariants of the specification\<close>

text \<open>
  The invariant the specification gives for a config: a non-empty layer list, positive
  sizes, and a minimum capacity below the buffer size.
\<close>

definition config_invariant :: "config \<Rightarrow> bool" where
  "config_invariant c =
     (layers c \<noteq> [] \<and> 0 < buffer_size c \<and> 0 < min_capacity c \<and> 0 < model_batch_size c
      \<and> 0 < samples_per_seq c \<and> min_capacity c < buffer_size c)"

text \<open>The tensor \<^verbatim>\<open>self.buffer\<close> refers to.\<close>

definition store :: "('a, 'g) buffer_state \<Rightarrow> 'a tensor" where
  "store s = heap s (buffer s)"

text \<open>
  What holds of a buffer between calls: the store has the shape the config gives it,
  and the corpus is not empty, with the dataset pointer inside it.
\<close>

definition state_ok :: "('a, 'g) buffer_state \<Rightarrow> bool" where
  "state_ok s =
     (int (length (rows (store s))) = buffer_size (cfg s)
      \<and> n_layers (store s) = length (layers (cfg s))
      \<and> act_size (cfg s) = Some (int (width (store s)))
      \<and> wf_tensor (store s)
      \<and> dataset s \<noteq> []
      \<and> 0 \<le> dataset_pointer s \<and> dataset_pointer s < int (length (dataset s))
      \<and> buffer s < next_id s)"

text \<open>
  What the collaborators are taken to guarantee. The model returns, for a non-empty batch,
  one block of activations per sequence, over at least one position, with one entry per
  configured layer and the configured width. \<^verbatim>\<open>torch.randperm(n)\<close> returns a
  permutation of \<open>0..<n\<close>.
\<close>

definition model_ok :: "('a, 'g) env \<Rightarrow> config \<Rightarrow> bool" where
  "model_ok e c =
     (\<forall>seqs stop. seqs \<noteq> [] \<longrightarrow>
        (\<exists>a. run_with_cache e seqs stop (act_names c) = Inr a \<and> wf_acts a
           \<and> length (a_seqs a) = length seqs \<and> 0 < a_pos a
           \<and> a_layers a = length (layers c) \<and> act_size c = Some (int (a_width a))))"

definition randperm_ok :: "('a, 'g) env \<Rightarrow> bool" where
  "randperm_ok e =
     (\<forall>g n. distinct (fst (randperm e g n)) \<and> set (fst (randperm e g n)) = {0..<n})"

text \<open>A row is produced by the model when it is an entry of the result of some call.\<close>

definition produced :: "('a, 'g) env \<Rightarrow> config \<Rightarrow> 'a list list \<Rightarrow> bool" where
  "produced e c r =
     (\<exists>seqs stop a. run_with_cache e seqs stop (act_names c) = Inr a
        \<and> r \<in> \<Union> (set ` set (a_seqs a)))"

text \<open>
  What a round of the loop leaves alone: everything but the pointers, the generator and
  the contents of the store, whose identity and shape stay.
\<close>

definition frame :: "('a, 'g) buffer_state \<Rightarrow> ('a, 'g) buffer_state \<Rightarrow> bool" where
  "frame s s' =
     (cfg s' = cfg s \<and> dataset s' = dataset s \<and> buffer s' = buffer s
      \<and> next_id s' = next_id s \<and> stdout s' = stdout s
      \<and> (\<forall>i. i \<noteq> buffer s \<longrightarrow> heap s' i = heap s i)
      \<and> shape (store s') = shape (store s))"

text \<open>The count of a read as the specification gives it: 1 when none is passed.\<close>

definition read_count :: "int option \<Rightarrow> int" where
  "read_count batch = (case batch of None \<Rightarrow> 1 | Some b \<Rightarrow> b)"

text \<open>The invariant the specification gives for the read cursor.\<close>

definition cursor_in_range :: "('a, 'g) buffer_state \<Rightarrow> bool" where
  "cursor_in_range s = (0 \<le> buffer_pointer s \<and> buffer_pointer s \<le> buffer_size (cfg s))"

section \<open>A caller and a concrete instance\<close>

text \<open>A caller that issues the reads \<open>bs\<close> in turn and drops what they return.\<close>

fun reads ::
  "('a, 'g) env \<Rightarrow> ('a, 'g) buffer_state \<Rightarrow> int option list
     \<Rightarrow> (error + ('a, 'g) buffer_state) option" where
  "reads e s [] = Some (Inr s)"
| "reads e s (b # bs) =
     (case next_acts e s b of
        None \<Rightarrow> None
      | Some (Inl err) \<Rightarrow> Some (Inl err)
      | Some (Inr (out, s')) \<Rightarrow> reads e s' bs)"

text \<open>Construction followed by the reads \<open>bs\<close>.\<close>

definition session ::
  "('a::zero, 'g) env \<Rightarrow> config \<Rightarrow> 'g \<Rightarrow> int option list
     \<Rightarrow> (error + ('a, 'g) buffer_state) option" where
  "session e c g bs =
     (case ActivationsBuffer_init e c g of
        None \<Rightarrow> None
      | Some (Inl err) \<Rightarrow> Some (Inl err)
      | Some (Inr s) \<Rightarrow> reads e s bs)"

text \<open>What a test observes of the outcome of a session.\<close>

definition observe ::
  "(('a, 'g) buffer_state \<Rightarrow> 'b) \<Rightarrow> (error + ('a, 'g) buffer_state) option
     \<Rightarrow> (error + 'b) option" where
  "observe f r = map_option (map_sum id f) r"

text \<open>A session followed by one more read, whose result is kept.\<close>

definition session_next ::
  "('a::zero, 'g) env \<Rightarrow> config \<Rightarrow> 'g \<Rightarrow> int option list \<Rightarrow> int option
     \<Rightarrow> (error + 'a out \<times> ('a, 'g) buffer_state) option" where
  "session_next e c g bs b =
     (case session e c g bs of
        None \<Rightarrow> None
      | Some (Inl err) \<Rightarrow> Some (Inl err)
      | Some (Inr s) \<Rightarrow> next_acts e s b)"

text \<open>The shape of what a read returned.\<close>

definition returned_shape ::
  "(error + 'a out \<times> ('a, 'g) buffer_state) option \<Rightarrow> (error + nat list) option" where
  "returned_shape r = map_option (map_sum id (out_shape \<circ> fst)) r"

text \<open>
  A corpus of three texts and a model over two positions whose activation at position
  \<open>p\<close> of the text \<open>s\<close> is \<open>10 * length s + p\<close> in every layer; the generator state is a
  counter, and the permutation drawn in state \<open>g\<close> is the rotation by \<open>g\<close>.
\<close>

definition example_env :: "(nat, nat) env" where
  "example_env =
     \<lparr>load_dataset = (\<lambda>name split sd. [''a'', ''bb'', ''ccc'']),
      d_mlp = 1,
      run_with_cache = (\<lambda>seqs stop names.
         Inr \<lparr>a_pos = 2, a_layers = length names, a_width = 1,
              a_seqs = map (\<lambda>s. map (\<lambda>p. replicate (length names) [10 * length s + p])
                                   [0..<2]) seqs\<rparr>),
      manual_seed = nat,
      randperm = (\<lambda>g n. (rotate g [0..<n], Suc g))\<rparr>"

definition example_cfg :: config where
  "example_cfg =
     \<lparr>model_name = ''m'', layers = [AInt 0, AInt 1], dataset_name = ''d'',
      act_names = [''blocks.0.mlp.hook_pre'', ''blocks.1.mlp.hook_pre''],
      dataset_split = None, buffer_size = 4, min_capacity = 1, model_batch_size = 2,
      samples_per_seq = 2, act_size = None, seed = Some 0, device = ''cpu'',
      dtype = ''bfloat16'', final_layer = AInt 1\<rparr>"

text \<open>
  The buffer as construction from the generator state 0 leaves it in this instance, with
  the pointer set to \<open>p\<close>.
\<close>

definition example_state :: "int \<Rightarrow> (nat, nat) buffer_state" where
  "example_state p =
     \<lparr>cfg = example_cfg\<lparr>act_size := Some 1\<rparr>,
      dataset = [''a'', ''bb'', ''ccc''],
      heap = (\<lambda>_. \<lparr>n_layers = 0, width = 0, rows = []\<rparr>)
        (0 := \<lparr>n_layers = 2, width = 1, rows = replicate 4 [[0], [0]]\<rparr>,
         1 := \<lparr>n_layers = 2, width = 1,
                rows = [[[10], [10]], [[11], [11]], [[20], [20]], [[21], [21]]]\<rparr>),
      next_id = 2,
      buffer = 1,
      buffer_pointer = p,
      dataset_pointer = 2,
      rng = 1,
      stdout = []\<rparr>"

section \<open>Slices, broadcasting and slice assignment\<close>

lemma clamp_index_le: "clamp_index n i \<le> n"
  unfolding clamp_index_def by (simp; linarith)

lemma clamp_index_nonneg: "0 \<le> i \<Longrightarrow> clamp_index n i = min n (nat i)"
  by (auto simp: clamp_index_def)

lemma py_slice_nonneg:
  "0 \<le> a \<Longrightarrow> 0 \<le> b \<Longrightarrow> py_slice xs a b = take (nat b - nat a) (drop (nat a) xs)"
  by (auto simp: py_slice_def clamp_index_nonneg Let_def min_def)

lemma py_slice_from_0: "0 \<le> b \<Longrightarrow> py_slice xs 0 b = take (nat b) xs"
  by (simp add: py_slice_nonneg)

lemma py_slice_empty: "py_slice xs a a = []"
  by (simp add: py_slice_def)

lemma ceil_div_pos: "0 < a \<Longrightarrow> 0 < b \<Longrightarrow> 0 < ceil_div a b"
  by (simp add: ceil_div_def div_neg_pos_less0)

lemma length_stretch: "length (stretch n xs) = n"
  by (simp add: stretch_def)

lemma stretch_id: "length xs = n \<Longrightarrow> stretch n xs = xs"
  by (simp add: stretch_def)

lemma expand_shape:
  "expand d l w t = Some v \<Longrightarrow> length (rows v) = d \<and> n_layers v = l \<and> width v = w"
  by (auto simp: expand_def length_stretch split: if_splits)

lemma expand_id:
  assumes "wf_tensor t" "length (rows t) = d" "n_layers t = l" "width t = w"
  shows "expand d l w t = Some t"
proof -
  have "map (\<lambda>r. stretch l (map (stretch w) r)) (rows t) = rows t"
  proof (rule map_idI)
    fix r assume r: "r \<in> set (rows t)"
    with assms have lr: "length r = l" and "\<forall>v \<in> set r. length v = w"
      by (auto simp: wf_tensor_def)
    then have "map (stretch w) r = r"
      by (intro map_idI) (simp add: stretch_id)
    with lr show "stretch l (map (stretch w) r) = r"
      by (simp add: stretch_id)
  qed
  with assms show ?thesis
    by (simp add: expand_def broadcastable_def stretch_id)
qed

lemma setitem_slice_shape:
  assumes "setitem_slice t a b src = Some t'"
  shows "shape t' = shape t"
proof -
  let ?lo = "clamp_index (length (rows t)) a" and ?hi = "clamp_index (length (rows t)) b"
  from assms obtain v where v: "expand (?hi - ?lo) (n_layers t) (width t) src = Some v"
    and t': "t' = t\<lparr>rows := take ?lo (rows t) @ rows v @ drop (?lo + (?hi - ?lo)) (rows t)\<rparr>"
    by (auto simp: setitem_slice_def Let_def split: option.splits)
  have "length (rows v) = ?hi - ?lo" using expand_shape [OF v] by simp
  moreover have "?lo \<le> length (rows t)" "?hi \<le> length (rows t)"
    by (rule clamp_index_le)+
  ultimately show ?thesis using t' by (simp add: shape_def)
qed

section \<open>What the loop of refresh leaves alone\<close>

lemma frame_refl: "frame s s"
  by (simp add: frame_def)

lemma frame_trans: "frame s s' \<Longrightarrow> frame s' s'' \<Longrightarrow> frame s s''"
  by (simp add: frame_def)

lemma refresh_round_frame:
  assumes "refresh_round e s = Inr s'"
  shows "frame s s'"
proof -
  from assms obtain t a b src where t: "setitem_slice (heap s (buffer s)) a b src = Some t"
    and h: "heap s' = (heap s)(buffer s := t)"
    and rest: "cfg s' = cfg s" "dataset s' = dataset s" "buffer s' = buffer s"
      "next_id s' = next_id s" "stdout s' = stdout s"
    by (auto simp: refresh_round_def Let_def
        split: if_splits atom.splits sum.splits prod.splits option.splits)
  from setitem_slice_shape [OF t] h rest show ?thesis
    by (simp add: frame_def store_def)
qed

lemma refresh_loop_frame:
  assumes "refresh_loop e s = Some r"
  shows "\<forall>s'. r = Inr s' \<longrightarrow> frame s s' \<and> buffer_pointer s' \<le> 0"
proof (rule refresh_loop.raw_induct
    [where P = "\<lambda>e s r. \<forall>s'. r = Inr s' \<longrightarrow> frame s s' \<and> buffer_pointer s' \<le> 0",
      OF _ assms])
  fix loop :: "('a, 'b) env \<Rightarrow> ('a, 'b) buffer_state \<Rightarrow> (error + ('a, 'b) buffer_state) option"
    and e s r
  assume IH: "\<And>e s r. loop e s = Some r
      \<Longrightarrow> \<forall>s'. r = Inr s' \<longrightarrow> frame s s' \<and> buffer_pointer s' \<le> 0"
    and eq: "(if 0 < buffer_pointer s
              then case refresh_round e s of Inl err \<Rightarrow> Some (Inl err) | Inr s' \<Rightarrow> loop e s'
              else Some (Inr s)) = Some r"
  show "\<forall>s'. r = Inr s' \<longrightarrow> frame s s' \<and> buffer_pointer s' \<le> 0"
  proof (cases "0 < buffer_pointer s")
    case False
    with eq show ?thesis by (auto simp: frame_refl)
  next
    case True
    show ?thesis
    proof (cases "refresh_round e s")
      case (Inl err)
      with True eq show ?thesis by auto
    next
      case (Inr s1)
      with True eq have "loop e s1 = Some r" by simp
      from IH [OF this] refresh_round_frame [OF Inr] show ?thesis
        by (blast intro: frame_trans)
    qed
  qed
qed

lemma refresh_result:
  assumes "refresh e s = Some (Inr s')"
  shows "buffer_pointer s' = 0" and "cfg s' = cfg s" and "dataset s' = dataset s"
    and "buffer s' = next_id s" and "next_id s' = Suc (next_id s)" and "stdout s' = stdout s"
    and "\<forall>i. i \<noteq> next_id s \<longrightarrow> heap s' i = heap s i"
    and "shape (store s') = shape (store s)"
proof -
  let ?s1 = "s\<lparr>heap := (heap s)(next_id s := roll (heap s (buffer s)) (- buffer_pointer s)),
               next_id := Suc (next_id s), buffer := next_id s\<rparr>"
  from assms have loop: "refresh_loop e ?s1 = Some (Inr s')" and bp: "buffer_pointer s' = 0"
    by (auto simp: refresh_def split: option.splits sum.splits if_splits)
  from refresh_loop_frame [OF loop] have f: "frame ?s1 s'" by simp
  show "buffer_pointer s' = 0" by (rule bp)
  from f show "cfg s' = cfg s" "dataset s' = dataset s" "buffer s' = next_id s"
    "next_id s' = Suc (next_id s)" "stdout s' = stdout s"
    by (simp_all add: frame_def)
  from f show "\<forall>i. i \<noteq> next_id s \<longrightarrow> heap s' i = heap s i"
    by (simp add: frame_def)
  from f have "shape (store s') = shape (store ?s1)"
    by (simp add: frame_def)
  then show "shape (store s') = shape (store s)"
    by (simp add: store_def shape_def roll_def)
qed

section \<open>One round of the loop\<close>

lemma set_py_slice: "set (py_slice xs a b) \<subseteq> set xs"
proof -
  have "set (take n (drop m xs)) \<subseteq> set xs" for n m
    by (meson set_drop_subset set_take_subset subset_trans)
  then show ?thesis by (simp add: py_slice_def Let_def)
qed

lemma length_sample:
  "length (rows (sample a idx)) = length (a_seqs a) * length idx"
proof -
  have "length (concat (map (\<lambda>s. map (\<lambda>i. s ! i) idx) xs)) = length xs * length idx" for xs :: "'a list list list list"
    by (induction xs) simp_all
  then show ?thesis by (simp add: sample_def)
qed

lemma sample_rows_from:
  assumes "wf_acts a" "set idx \<subseteq> {0..<a_pos a}" "r \<in> set (rows (sample a idx))"
  shows "r \<in> \<Union> (set ` set (a_seqs a))"
proof -
  from assms(3) obtain s i where s: "s \<in> set (a_seqs a)" and i: "i \<in> set idx" and r: "r = s ! i"
    by (auto simp: sample_def)
  from assms(1) s have "length s = a_pos a" by (simp add: wf_acts_def)
  with assms(2) i have "i < length s" by auto
  with r have "r \<in> set s" by simp
  with s show ?thesis by blast
qed

lemma wf_sample:
  assumes "wf_acts a" "set idx \<subseteq> {0..<a_pos a}"
  shows "wf_tensor (sample a idx)"
proof -
  have "length r = a_layers a \<and> (\<forall>v \<in> set r. length v = a_width a)"
    if "r \<in> set (rows (sample a idx))" for r
  proof -
    from sample_rows_from [OF assms that] obtain s where "s \<in> set (a_seqs a)" "r \<in> set s"
      by blast
    with assms(1) show ?thesis by (simp add: wf_acts_def)
  qed
  then show ?thesis by (simp add: wf_tensor_def sample_def)
qed

lemma setitem_slice_fits:
  assumes "wf_tensor src" "n_layers src = n_layers t" "width src = width t"
    and "0 \<le> a" "length (rows src) = k" "nat a + k \<le> length (rows t)"
    and "clamp_index (length (rows t)) b = nat a + k"
  shows "setitem_slice t a b src
           = Some (t\<lparr>rows := take (nat a) (rows t) @ rows src @ drop (nat a + k) (rows t)\<rparr>)"
proof -
  have lo: "clamp_index (length (rows t)) a = nat a"
    using assms by (simp add: clamp_index_nonneg)
  have "expand k (n_layers t) (width t) src = Some src"
    using assms by (intro expand_id) simp_all
  then show ?thesis
    by (simp add: setitem_slice_def lo assms(7) Let_def)
qed

lemma refresh_round_writes:
  fixes s :: "('a, 'g) buffer_state"
  assumes len: "int (length (rows (store s))) = buffer_size (cfg s)"
    and bp: "0 < buffer_pointer s" "buffer_pointer s \<le> buffer_size (cfg s)"
    and sps: "samples_per_seq (cfg s) \<noteq> 0" and ds: "dataset s \<noteq> []"
    and fl: "final_layer (cfg s) = AInt fl"
    and run: "run_with_cache e (round_seqs s) (fl + 1) (act_names (cfg s)) = Inr a"
    and a: "wf_acts a" "a_layers a = n_layers (store s)" "a_width a = width (store s)"
    and perm: "randperm e (rng s) (a_pos a) = (perm, g)" "set perm \<subseteq> {0..<a_pos a}"
    and acts: "acts = sample a (py_slice perm 0 (samples_per_seq (cfg s)))"
    and ws: "write_start = nat (buffer_size (cfg s) - buffer_pointer s)"
    and k: "k = min (length (rows acts)) (nat (buffer_pointer s))"
  shows "refresh_round e s =
           Inr (s\<lparr>heap := (heap s)(buffer s := (store s)\<lparr>rows :=
                     take write_start (rows (store s)) @ take k (rows acts)
                       @ drop (write_start + k) (rows (store s))\<rparr>),
                  buffer_pointer := buffer_pointer s - int k,
                  dataset_pointer :=
                    (dataset_pointer s + round_batch_size s) mod int (length (dataset s)),
                  rng := g\<rparr>)
         \<and> write_start + k \<le> nat (buffer_size (cfg s))"
proof -
  let ?t = "heap s (buffer s)"
  let ?wp = "buffer_size (cfg s) - buffer_pointer s"
  let ?n = "length (rows acts)"
  let ?src = "tensor_slice acts 0 (int k)"
  have t: "?t = store s" by (simp add: store_def)
  have idx: "set (py_slice perm 0 (samples_per_seq (cfg s))) \<subseteq> {0..<a_pos a}"
    by (rule subset_trans [OF set_py_slice perm(2)])
  have wf_acts: "wf_tensor acts"
    unfolding acts by (rule wf_sample [OF a(1) idx])
  have mink: "min (int ?n) (buffer_pointer s) = int k"
    using bp k by linarith
  have src_rows: "rows ?src = take k (rows acts)"
    by (simp add: tensor_slice_def py_slice_from_0)
  have src_dims: "n_layers ?src = n_layers acts" "width ?src = width acts"
    by (simp_all add: tensor_slice_def)
  have kn: "k \<le> ?n" using k by simp
  have wf_src: "wf_tensor ?src"
    using wf_acts by (auto simp: wf_tensor_def src_rows src_dims dest: in_set_takeD)
  have dims: "n_layers ?src = n_layers ?t" "width ?src = width ?t"
    using a by (simp_all add: tensor_slice_def acts sample_def t)
  have fits: "nat ?wp + k \<le> length (rows ?t)"
    using len bp k by (simp add: t)
  have hi: "clamp_index (length (rows ?t)) (?wp + int ?n) = nat ?wp + k"
    using len bp k by (auto simp: clamp_index_nonneg t min_def)
  have "setitem_slice ?t ?wp (?wp + int ?n) ?src
          = Some (?t\<lparr>rows := take (nat ?wp) (rows ?t) @ rows ?src @ drop (nat ?wp + k) (rows ?t)\<rparr>)"
    using bp kn by (intro setitem_slice_fits [OF wf_src dims _ _ fits hi]) (simp_all add: src_rows)
  then have "refresh_round e s =
           Inr (s\<lparr>heap := (heap s)(buffer s := ?t\<lparr>rows :=
                     take (nat ?wp) (rows ?t) @ take k (rows acts) @ drop (nat ?wp + k) (rows ?t)\<rparr>),
                  buffer_pointer := buffer_pointer s - int k,
                  dataset_pointer :=
                    (dataset_pointer s + round_batch_size s) mod int (length (dataset s)),
                  rng := g\<rparr>)"
    using sps ds fl run perm(1) acts [symmetric]
    by (simp add: refresh_round_def Let_def mink src_rows)
  moreover have "write_start + k \<le> nat (buffer_size (cfg s))"
    using fits len ws by (simp add: t)
  ultimately show ?thesis by (simp add: t ws)
qed

lemma round_seqs_nonempty:
  assumes "dataset s \<noteq> []" "0 \<le> dataset_pointer s"
    "dataset_pointer s < int (length (dataset s))" "0 < round_batch_size s"
  shows "round_seqs s \<noteq> []"
proof -
  define m where "m = nat (dataset_pointer s + round_batch_size s) - nat (dataset_pointer s)"
  define d where "d = nat (dataset_pointer s)"
  have "round_seqs s = take m (drop d (dataset s))"
    using assms by (simp add: round_seqs_def py_slice_nonneg m_def d_def)
  moreover have "0 < m"
    unfolding m_def using assms by linarith
  moreover have "d < length (dataset s)"
    unfolding d_def using assms by linarith
  ultimately show ?thesis by simp
qed

lemma round_batch_size_pos:
  assumes "0 < buffer_pointer s" "0 < samples_per_seq (cfg s)" "0 < model_batch_size (cfg s)"
  shows "0 < round_batch_size s"
  using assms by (simp add: round_batch_size_def ceil_div_pos)

lemma refresh_round_ok:
  fixes s :: "('a, 'g) buffer_state"
  assumes ok: "state_ok s"
    and bp: "0 < buffer_pointer s" "buffer_pointer s \<le> buffer_size (cfg s)"
    and sz: "0 < samples_per_seq (cfg s)" "0 < model_batch_size (cfg s)"
    and fl: "final_layer (cfg s) = AInt fl"
    and mo: "model_ok e (cfg s)" and ro: "randperm_ok e"
  shows "\<exists>s' fresh. refresh_round e s = Inr s' \<and> state_ok s' \<and> fresh \<noteq> []
           \<and> length fresh \<le> nat (buffer_pointer s)
           \<and> (\<forall>r \<in> set fresh. produced e (cfg s) r)
           \<and> buffer_pointer s' = buffer_pointer s - int (length fresh)
           \<and> rows (store s') =
               take (nat (buffer_size (cfg s) - buffer_pointer s)) (rows (store s)) @ fresh
                 @ drop (nat (buffer_size (cfg s) - buffer_pointer s) + length fresh)
                     (rows (store s))"
proof -
  let ?C = "buffer_size (cfg s)" and ?bp = "buffer_pointer s"
  let ?ws = "nat (?C - ?bp)"
  let ?old = "rows (store s)"
  from ok have len: "int (length ?old) = ?C" and nl: "n_layers (store s) = length (layers (cfg s))"
    and wd: "act_size (cfg s) = Some (int (width (store s)))" and wf: "wf_tensor (store s)"
    and ds: "dataset s \<noteq> []" and dp: "0 \<le> dataset_pointer s"
      "dataset_pointer s < int (length (dataset s))"
    and id: "buffer s < next_id s"
    by (simp_all add: state_ok_def)
  have "round_seqs s \<noteq> []"
    using ds dp round_batch_size_pos [OF bp(1) sz] by (rule round_seqs_nonempty)
  with mo obtain a where run: "run_with_cache e (round_seqs s) (fl + 1) (act_names (cfg s)) = Inr a"
    and a: "wf_acts a" "length (a_seqs a) = length (round_seqs s)" "0 < a_pos a"
      "a_layers a = length (layers (cfg s))" "act_size (cfg s) = Some (int (a_width a))"
    unfolding model_ok_def by blast
  obtain perm g where perm: "randperm e (rng s) (a_pos a) = (perm, g)"
    by (cases "randperm e (rng s) (a_pos a)")
  from ro have "distinct (fst (randperm e (rng s) (a_pos a)))"
    "set (fst (randperm e (rng s) (a_pos a))) = {0..<a_pos a}"
    unfolding randperm_ok_def by blast+
  with perm have dist: "distinct perm" and sperm: "set perm = {0..<a_pos a}" by simp_all
  from distinct_card [OF dist] sperm have lperm: "length perm = a_pos a" by simp
  define idx where "idx = py_slice perm 0 (samples_per_seq (cfg s))"
  define acts where "acts = sample a idx"
  define k where "k = min (length (rows acts)) (nat ?bp)"
  have "idx = take (nat (samples_per_seq (cfg s))) perm"
    using sz by (simp add: idx_def py_slice_from_0)
  with lperm a(3) sz have "0 < length idx" by simp
  moreover have "0 < length (a_seqs a)" using a(2) \<open>round_seqs s \<noteq> []\<close> by simp
  ultimately have n: "0 < length (rows acts)" by (simp add: acts_def length_sample)
  with bp have k: "0 < k" "k \<le> nat ?bp" "k \<le> length (rows acts)" by (simp_all add: k_def)
  have idx_sub: "set idx \<subseteq> {0..<a_pos a}"
    unfolding idx_def using set_py_slice sperm by (rule subset_trans [OF _ equalityD1])
  have dims: "a_layers a = n_layers (store s)" "a_width a = width (store s)"
    using a nl wd by simp_all
  let ?new = "take ?ws ?old @ take k (rows acts) @ drop (?ws + k) ?old"
  let ?s' = "s\<lparr>heap := (heap s)(buffer s := (store s)\<lparr>rows := ?new\<rparr>),
               buffer_pointer := ?bp - int k,
               dataset_pointer := (dataset_pointer s + round_batch_size s) mod int (length (dataset s)),
               rng := g\<rparr>"
  have round: "refresh_round e s = Inr ?s'"
    using refresh_round_writes [where acts = acts and k = k and write_start = ?ws,
        OF len bp _ ds fl run a(1) dims perm]
      sz sperm by (simp add: acts_def idx_def k_def)
  have store': "store ?s' = (store s)\<lparr>rows := ?new\<rparr>" by (simp add: store_def)
  have "?ws + k \<le> length ?old" using len bp k by linarith
  then have len': "length ?new = length ?old" using k(3) by simp
  have wf_acts: "wf_tensor acts" unfolding acts_def by (rule wf_sample [OF a(1) idx_sub])
  have wf': "wf_tensor ((store s)\<lparr>rows := ?new\<rparr>)"
    unfolding wf_tensor_def
  proof (intro ballI)
    fix r assume "r \<in> set (rows ((store s)\<lparr>rows := ?new\<rparr>))"
    then have "r \<in> set ?old \<or> r \<in> set (rows acts)"
      by (auto dest: in_set_takeD in_set_dropD)
    then show "length r = n_layers ((store s)\<lparr>rows := ?new\<rparr>)
        \<and> (\<forall>v \<in> set r. length v = width ((store s)\<lparr>rows := ?new\<rparr>))"
    proof
      assume "r \<in> set ?old"
      with wf show ?thesis by (simp add: wf_tensor_def)
    next
      assume r: "r \<in> set (rows acts)"
      have "n_layers acts = n_layers (store s)" "width acts = width (store s)"
        using dims by (simp_all add: acts_def sample_def)
      with wf_acts r show ?thesis by (simp add: wf_tensor_def)
    qed
  qed
  have "0 < int (length (dataset s))" using ds by simp
  then have dp': "0 \<le> (dataset_pointer s + round_batch_size s) mod int (length (dataset s))"
      "(dataset_pointer s + round_batch_size s) mod int (length (dataset s)) < int (length (dataset s))"
    by simp_all
  have ok': "state_ok ?s'"
    unfolding state_ok_def store'
    using len len' nl wd wf' ds dp' id by simp
  have prod: "\<forall>r \<in> set (take k (rows acts)). produced e (cfg s) r"
  proof
    fix r assume "r \<in> set (take k (rows acts))"
    then have "r \<in> set (rows (sample a idx))" by (auto simp: acts_def dest: in_set_takeD)
    from sample_rows_from [OF a(1) idx_sub this] run show "produced e (cfg s) r"
      unfolding produced_def by blast
  qed
  have "take k (rows acts) \<noteq> []" using k by auto
  moreover have "length (take k (rows acts)) = k" using k by simp
  ultimately show ?thesis
    using round ok' prod k store'
    by (intro exI [of _ ?s'] exI [of _ "take k (rows acts)"]) simp
qed

section \<open>The loop and refresh return\<close>

lemma refresh_loop_total:
  fixes s :: "('a, 'g) buffer_state"
  assumes "state_ok s"
    and "0 \<le> buffer_pointer s" "buffer_pointer s \<le> buffer_size (cfg s)"
    and "0 < samples_per_seq (cfg s)" "0 < model_batch_size (cfg s)"
    and "final_layer (cfg s) = AInt fl"
    and "model_ok e (cfg s)" and "randperm_ok e"
  shows "\<exists>s' fresh. refresh_loop e s = Some (Inr s') \<and> state_ok s'
           \<and> buffer_pointer s' = 0 \<and> length fresh = nat (buffer_pointer s)
           \<and> (\<forall>r \<in> set fresh. produced e (cfg s) r)
           \<and> rows (store s') =
               take (nat (buffer_size (cfg s) - buffer_pointer s)) (rows (store s)) @ fresh"
  using assms
proof (induction "nat (buffer_pointer s)" arbitrary: s rule: less_induct)
  case less
  let ?C = "buffer_size (cfg s)" and ?bp = "buffer_pointer s"
  show ?case
  proof (cases "0 < ?bp")
    case False
    with less.prems(2) have bp0: "?bp = 0" by simp
    from less.prems(1) have "int (length (rows (store s))) = ?C" by (simp add: state_ok_def)
    then have "take (nat ?C) (rows (store s)) = rows (store s)" by simp
    with bp0 less.prems(1) show ?thesis
      by (subst refresh_loop.simps) (intro exI [of _ s] exI [of _ "[]"], simp)
  next
    case True
    from refresh_round_ok [OF less.prems(1) True less.prems(3-8)]
    obtain s1 fresh1 where round: "refresh_round e s = Inr s1" and ok1: "state_ok s1"
      and f1: "fresh1 \<noteq> []" "length fresh1 \<le> nat ?bp" "\<forall>r \<in> set fresh1. produced e (cfg s) r"
      and bp1: "buffer_pointer s1 = ?bp - int (length fresh1)"
      and rows1: "rows (store s1) = take (nat (?C - ?bp)) (rows (store s)) @ fresh1
                 @ drop (nat (?C - ?bp) + length fresh1) (rows (store s))"
      by blast
    from refresh_round_frame [OF round] have cfg1: "cfg s1 = cfg s" by (simp add: frame_def)
    have lt: "nat (buffer_pointer s1) < nat ?bp" using bp1 f1 True by (cases fresh1) auto
    have range1: "0 \<le> buffer_pointer s1" "buffer_pointer s1 \<le> buffer_size (cfg s1)"
      using bp1 f1(2) less.prems(3) True unfolding cfg1 by linarith+
    from less.hyps [OF lt ok1 range1] less.prems(4-8)
    obtain s' fresh2 where loop: "refresh_loop e s1 = Some (Inr s')" and ok': "state_ok s'"
      and bp': "buffer_pointer s' = 0" and f2: "length fresh2 = nat (buffer_pointer s1)"
        "\<forall>r \<in> set fresh2. produced e (cfg s) r"
      and rows': "rows (store s') =
          take (nat (?C - buffer_pointer s1)) (rows (store s1)) @ fresh2"
      unfolding cfg1 by blast
    from less.prems(1) have len: "int (length (rows (store s))) = ?C" by (simp add: state_ok_def)
    have split: "nat (?C - buffer_pointer s1) = nat (?C - ?bp) + length fresh1"
      using bp1 f1(2) less.prems(3) True by linarith
    have "length (take (nat (?C - ?bp)) (rows (store s))) = nat (?C - ?bp)"
      using len True by simp
    then have "take (nat (?C - buffer_pointer s1)) (rows (store s1))
        = take (nat (?C - ?bp)) (rows (store s)) @ fresh1"
      unfolding split rows1 by simp
    with rows' have final: "rows (store s')
        = take (nat (?C - ?bp)) (rows (store s)) @ (fresh1 @ fresh2)" by simp
    have "length (fresh1 @ fresh2) = nat ?bp" using f2(1) bp1 f1(2) True by simp
    moreover have "\<forall>r \<in> set (fresh1 @ fresh2). produced e (cfg s) r" using f1(3) f2(2) by auto
    moreover have "refresh_loop e s = Some (Inr s')"
      using True round loop by (subst refresh_loop.simps) simp
    ultimately show ?thesis using ok' bp' final by blast
  qed
qed

lemma roll_state_ok:
  assumes "state_ok s"
  shows "state_ok (s\<lparr>heap := (heap s)(next_id s := roll (heap s (buffer s)) (- buffer_pointer s)),
                     next_id := Suc (next_id s), buffer := next_id s\<rparr>)"
  using assms by (simp add: state_ok_def store_def roll_def wf_tensor_def)

lemma rows_roll:
  assumes "0 \<le> k" "k \<le> int (length (rows t))"
  shows "take (nat (int (length (rows t)) - k)) (rows (roll t (- k))) = drop (nat k) (rows t)"
proof (cases "k = int (length (rows t))")
  case True
  then show ?thesis by (simp add: roll_def)
next
  case False
  with assms have "k mod int (length (rows t)) = k" by simp
  moreover have "nat k mod length (rows t) = nat k" using assms False by simp
  moreover have "nat (int (length (rows t)) - k) = length (rows t) - nat k" using assms by simp
  ultimately show ?thesis by (simp add: roll_def rotate_drop_take)
qed

lemma refresh_total:
  fixes s :: "('a, 'g) buffer_state"
  assumes ok: "state_ok s"
    and bp: "0 \<le> buffer_pointer s" "buffer_pointer s \<le> buffer_size (cfg s)"
    and sz: "0 < samples_per_seq (cfg s)" "0 < model_batch_size (cfg s)"
    and fl: "final_layer (cfg s) = AInt fl"
    and mo: "model_ok e (cfg s)" and ro: "randperm_ok e"
  shows "\<exists>s' fresh. refresh e s = Some (Inr s') \<and> state_ok s'
           \<and> buffer_pointer s' = 0 \<and> length fresh = nat (buffer_pointer s)
           \<and> (\<forall>r \<in> set fresh. produced e (cfg s) r)
           \<and> rows (store s') = drop (nat (buffer_pointer s)) (rows (store s)) @ fresh"
proof -
  let ?s1 = "s\<lparr>heap := (heap s)(next_id s := roll (heap s (buffer s)) (- buffer_pointer s)),
               next_id := Suc (next_id s), buffer := next_id s\<rparr>"
  have ok1: "state_ok ?s1" by (rule roll_state_ok [OF ok])
  from refresh_loop_total [OF ok1, of fl e] bp sz fl mo ro
  obtain s' fresh where loop: "refresh_loop e ?s1 = Some (Inr s')" and ok': "state_ok s'"
    and bp': "buffer_pointer s' = 0" and fr: "length fresh = nat (buffer_pointer s)"
      "\<forall>r \<in> set fresh. produced e (cfg s) r"
    and rows': "rows (store s') =
        take (nat (buffer_size (cfg s) - buffer_pointer s)) (rows (store ?s1)) @ fresh"
    by auto
  from ok have len: "int (length (rows (heap s (buffer s)))) = buffer_size (cfg s)"
    by (simp add: state_ok_def store_def)
  have "store ?s1 = roll (heap s (buffer s)) (- buffer_pointer s)" by (simp add: store_def)
  with rows_roll [of "buffer_pointer s" "heap s (buffer s)"] bp len
  have "take (nat (buffer_size (cfg s) - buffer_pointer s)) (rows (store ?s1))
      = drop (nat (buffer_pointer s)) (rows (store s))"
    by (simp add: store_def)
  with rows' have "rows (store s') = drop (nat (buffer_pointer s)) (rows (store s)) @ fresh"
    by simp
  moreover have "refresh e s = Some (Inr s')"
    using loop bp' by (simp add: refresh_def)
  ultimately show ?thesis using ok' bp' fr by blast
qed

lemma init_total:
  fixes e :: "('a::zero, 'g) env"
  assumes inv: "config_invariant c" and fl: "final_layer c = AInt fl"
    and w: "w = (case act_size c of None \<Rightarrow> d_mlp e | Some a \<Rightarrow> a)" "0 \<le> w"
    and ds: "load_dataset e (dataset_name c) (dataset_split c) (seed c) \<noteq> []"
    and mo: "model_ok e (c\<lparr>act_size := Some w\<rparr>)" and ro: "randperm_ok e"
  shows "\<exists>s'. ActivationsBuffer_init e c g = Some (Inr s') \<and> state_ok s'
           \<and> buffer_pointer s' = 0 \<and> cfg s' = c\<lparr>act_size := Some w\<rparr>
           \<and> int (length (rows (store s'))) = buffer_size c
           \<and> (\<forall>r \<in> set (rows (store s')). produced e (cfg s') r)"
proof -
  let ?z = "\<lparr>n_layers = length (layers c), width = nat w,
             rows = replicate (nat (buffer_size c)) (replicate (length (layers c)) (replicate (nat w) (0::'a)))\<rparr>"
  let ?s = "\<lparr>cfg = c\<lparr>act_size := Some w\<rparr>,
             dataset = load_dataset e (dataset_name c) (dataset_split c) (seed c),
             heap = (\<lambda>_. \<lparr>n_layers = 0, width = 0, rows = []\<rparr>)(0 := ?z),
             next_id = 1, buffer = 0, buffer_pointer = buffer_size c, dataset_pointer = 0,
             rng = seed_rng e (seed c) g, stdout = []\<rparr>"
  from inv have C: "0 < buffer_size c" and sz: "0 < samples_per_seq c" "0 < model_batch_size c"
    by (simp_all add: config_invariant_def)
  have z: "zeros (buffer_size c) (length (layers c)) w = Inr ?z"
    using C w(2) by (simp add: zeros_def)
  have init: "ActivationsBuffer_init e c g = refresh e ?s"
    by (simp add: ActivationsBuffer_init_def w(1) [symmetric] z)
  have ok: "state_ok ?s"
    using C w(2) ds by (simp add: state_ok_def store_def wf_tensor_def)
  from refresh_total [OF ok, of fl e] C sz fl mo ro
  obtain s' fresh where r: "refresh e ?s = Some (Inr s')" and ok': "state_ok s'"
    and bp': "buffer_pointer s' = 0" and fr: "length fresh = nat (buffer_size c)"
      "\<forall>r \<in> set fresh. produced e (c\<lparr>act_size := Some w\<rparr>) r"
    and rows': "rows (store s') = drop (nat (buffer_size c)) (rows (store ?s)) @ fresh"
    by auto
  from refresh_result(2) [OF r] have cfg': "cfg s' = c\<lparr>act_size := Some w\<rparr>" by simp
  from rows' have "rows (store s') = fresh" by (simp add: store_def)
  with fr C cfg' init r ok' bp' show ?thesis by auto
qed

section \<open>The concrete instance\<close>

lemma example_state_constructed:
  "observe (\<lambda>s. (cfg s, dataset s, heap s 0, heap s 1, next_id s, buffer s, buffer_pointer s,
                 dataset_pointer s, rng s, stdout s))
     (ActivationsBuffer_init example_env example_cfg 0)
   = Some (Inr (cfg (example_state 0), dataset (example_state 0), heap (example_state 0) 0,
        heap (example_state 0) 1, next_id (example_state 0), buffer (example_state 0),
        buffer_pointer (example_state 0), dataset_pointer (example_state 0),
        rng (example_state 0), stdout (example_state 0)))"
  by code_simp

lemma example_model_ok: "model_ok example_env (example_cfg\<lparr>act_size := Some 1\<rparr>)"
  by (simp add: model_ok_def example_env_def example_cfg_def wf_acts_def)

lemma example_randperm_ok: "randperm_ok example_env"
  by (simp add: randperm_ok_def example_env_def)

lemma example_state_ok: "0 \<le> p \<Longrightarrow> p \<le> 4 \<Longrightarrow> state_ok (example_state p)"
  by (simp add: state_ok_def example_state_def example_cfg_def store_def wf_tensor_def)

lemma example_state_vals:
  "cfg (example_state p) = example_cfg\<lparr>act_size := Some 1\<rparr>"
  "buffer_pointer (example_state p) = p"
  "dataset (example_state p) = [''a'', ''bb'', ''ccc'']"
  "dataset_pointer (example_state p) = 2"
  "rng (example_state p) = 1"
  "buffer (example_state p) = 1"
  "next_id (example_state p) = 2"
  "store (example_state p) = \<lparr>n_layers = 2, width = 1,
      rows = [[[10], [10]], [[11], [11]], [[20], [20]], [[21], [21]]]\<rparr>"
  by (simp_all add: example_state_def store_def)

lemma example_cfg_vals:
  "buffer_size example_cfg = 4" "min_capacity example_cfg = 1"
  "samples_per_seq example_cfg = 2" "model_batch_size example_cfg = 2"
  "final_layer example_cfg = AInt 1" "layers example_cfg = [AInt 0, AInt 1]"
  "act_names example_cfg = [''blocks.0.mlp.hook_pre'', ''blocks.1.mlp.hook_pre'']"
  by (simp_all add: example_cfg_def)

lemma example_state_after_reads:
  "observe (\<lambda>s. (cfg s, dataset s, heap s 0, heap s 1, next_id s, buffer s, buffer_pointer s,
                 dataset_pointer s, rng s, stdout s))
     (session example_env example_cfg 0 [Some 1, Some 1, Some 1])
   = Some (Inr (cfg (example_state 3), dataset (example_state 3), heap (example_state 3) 0,
        heap (example_state 3) 1, next_id (example_state 3), buffer (example_state 3),
        buffer_pointer (example_state 3), dataset_pointer (example_state 3),
        rng (example_state 3), stdout (example_state 3)))"
  by code_simp

section \<open>The constructor of the config\<close>





section \<open>Refill\<close>



section \<open>The writes of one round\<close>



section \<open>The corpus read of one round\<close>

text \<open>
  C7 at the state the concrete instance reaches after construction and three reads of one
  row: the round asks for a batch of 2 sequences with the dataset pointer at 2 in a corpus
  of 3, and the slice holds the last text only. The read does not wrap.
\<close>

theorem corpus_slice_truncated:
  "observe round_batch_size (session example_env example_cfg 0 [Some 1, Some 1, Some 1])
     = Some (Inr 2)
   \<and> observe round_seqs (session example_env example_cfg 0 [Some 1, Some 1, Some 1])
     = Some (Inr [''ccc''])"
  by code_simp

text \<open>
  What does hold of the read: it returns the sequences from the dataset pointer on, as
  many as the batch size or as the corpus has left; a round under the contracts returns
  also when the slice runs past the end of the corpus; and every round that returns leaves
  the dataset pointer inside the corpus.
\<close>

lemma round_seqs_take:
  fixes s :: "('a, 'g) buffer_state"
  shows
  "(0 \<le> dataset_pointer s \<and> dataset_pointer s < int (length (dataset s))
      \<and> 0 \<le> round_batch_size s \<longrightarrow>
      round_seqs s = take (nat (round_batch_size s)) (drop (nat (dataset_pointer s)) (dataset s))
      \<and> int (length (round_seqs s))
          = min (round_batch_size s) (int (length (dataset s)) - dataset_pointer s))
   \<and> (state_ok s \<and> 0 < buffer_pointer s \<and> buffer_pointer s \<le> buffer_size (cfg s)
      \<and> 0 < samples_per_seq (cfg s) \<and> 0 < model_batch_size (cfg s)
      \<and> final_layer (cfg s) = AInt fl \<and> model_ok e (cfg s) \<and> randperm_ok e \<longrightarrow>
      (\<exists>s'. refresh_round e s = Inr s'))
   \<and> (\<forall>s'. refresh_round e s = Inr s' \<longrightarrow>
         0 \<le> dataset_pointer s' \<and> dataset_pointer s' < int (length (dataset s')))"
proof (intro conjI impI allI)
  assume h: "0 \<le> dataset_pointer s \<and> dataset_pointer s < int (length (dataset s))
      \<and> 0 \<le> round_batch_size s"
  then have "nat (dataset_pointer s + round_batch_size s) - nat (dataset_pointer s)
      = nat (round_batch_size s)" by linarith
  with h show eq: "round_seqs s
      = take (nat (round_batch_size s)) (drop (nat (dataset_pointer s)) (dataset s))"
    by (simp add: round_seqs_def py_slice_nonneg)
  from h show "int (length (round_seqs s))
      = min (round_batch_size s) (int (length (dataset s)) - dataset_pointer s)"
    unfolding eq by simp linarith
next
  assume "state_ok s \<and> 0 < buffer_pointer s \<and> buffer_pointer s \<le> buffer_size (cfg s)
      \<and> 0 < samples_per_seq (cfg s) \<and> 0 < model_batch_size (cfg s)
      \<and> final_layer (cfg s) = AInt fl \<and> model_ok e (cfg s) \<and> randperm_ok e"
  with refresh_round_ok [of s fl e] show "\<exists>s'. refresh_round e s = Inr s'" by blast
next
  fix s' assume r: "refresh_round e s = Inr s'"
  then have ne: "dataset s \<noteq> []"
    and dp: "dataset_pointer s'
      = (dataset_pointer s + round_batch_size s) mod int (length (dataset s))"
    by (auto simp: refresh_round_def Let_def
        split: if_splits atom.splits sum.splits prod.splits option.splits)
  from refresh_round_frame [OF r] have ds: "dataset s' = dataset s" by (simp add: frame_def)
  from ne have "0 < int (length (dataset s))" by simp
  then show "0 \<le> dataset_pointer s'" "dataset_pointer s' < int (length (dataset s'))"
    unfolding dp ds by simp_all
qed

section \<open>Reads\<close>

lemma batch_or_1_count: "1 \<le> read_count batch \<Longrightarrow> batch_or_1 batch = read_count batch"
  by (auto simp: batch_or_1_def read_count_def split: option.splits)

lemma next_total:
  fixes s :: "('a, 'g) buffer_state"
  assumes ok: "state_ok s"
    and bp: "0 \<le> buffer_pointer s" "buffer_pointer s \<le> buffer_size (cfg s)"
    and sz: "0 < samples_per_seq (cfg s)" "0 < model_batch_size (cfg s)"
    and fl: "final_layer (cfg s) = AInt fl"
    and mo: "model_ok e (cfg s)" and ro: "randperm_ok e"
    and M: "0 \<le> min_capacity (cfg s)"
    and cnt: "1 \<le> read_count batch" "read_count batch \<le> buffer_size (cfg s)"
  shows "\<exists>s1. next_refresh e s batch = Some (Inr s1) \<and> state_ok s1 \<and> cfg s1 = cfg s
           \<and> (if low_water s batch then buffer_pointer s1 = 0 else s1 = s)
           \<and> 0 \<le> buffer_pointer s1
           \<and> buffer_pointer s1 + read_count batch \<le> buffer_size (cfg s)
           \<and> next_acts e s batch =
               Some (Inr (case batch of
                            None \<Rightarrow> Vector (n_layers (store s1)) (width (store s1))
                                      (rows (store s1) ! nat (buffer_pointer s1))
                          | Some b \<Rightarrow> Batch ((store s1)\<lparr>rows :=
                                      take (nat b) (drop (nat (buffer_pointer s1)) (rows (store s1)))\<rparr>),
                          s1\<lparr>buffer_pointer := buffer_pointer s1 + read_count batch\<rparr>))"
proof -
  have b1: "batch_or_1 batch = read_count batch" by (rule batch_or_1_count [OF cnt(1)])
  have "\<exists>s1. next_refresh e s batch = Some (Inr s1) \<and> state_ok s1 \<and> cfg s1 = cfg s
           \<and> (if low_water s batch then buffer_pointer s1 = 0 else s1 = s)
           \<and> 0 \<le> buffer_pointer s1
           \<and> buffer_pointer s1 + read_count batch \<le> buffer_size (cfg s)"
  proof (cases "low_water s batch")
    case True
    let ?s = "s\<lparr>stdout := stdout s @ [''Refreshing the buffer!'']\<rparr>"
    have ok2: "state_ok ?s" using ok by (simp add: state_ok_def store_def)
    from refresh_total [OF ok2, of fl e] bp sz fl mo ro
    obtain s1 where r: "refresh e ?s = Some (Inr s1)" and ok1: "state_ok s1"
      and bp1: "buffer_pointer s1 = 0"
      by auto
    from refresh_result(2) [OF r] have "cfg s1 = cfg s" by simp
    with True r ok1 bp1 cnt show ?thesis by (simp add: next_refresh_def)
  next
    case False
    then have "buffer_pointer s + read_count batch \<le> buffer_size (cfg s)"
      using M by (simp add: low_water_def b1)
    with False ok bp show ?thesis by (simp add: next_refresh_def)
  qed
  then obtain s1 where nr: "next_refresh e s batch = Some (Inr s1)" and ok1: "state_ok s1"
    and cfg1: "cfg s1 = cfg s"
    and lw: "if low_water s batch then buffer_pointer s1 = 0 else s1 = s"
    and bp1: "0 \<le> buffer_pointer s1" "buffer_pointer s1 + read_count batch \<le> buffer_size (cfg s)"
    by blast
  from ok1 have len: "int (length (rows (store s1))) = buffer_size (cfg s)"
    by (simp add: state_ok_def cfg1)
  have "next_read s1 batch =
          Inr (case batch of
                 None \<Rightarrow> Vector (n_layers (store s1)) (width (store s1))
                           (rows (store s1) ! nat (buffer_pointer s1))
               | Some b \<Rightarrow> Batch ((store s1)\<lparr>rows :=
                           take (nat b) (drop (nat (buffer_pointer s1)) (rows (store s1)))\<rparr>),
               s1\<lparr>buffer_pointer := buffer_pointer s1 + read_count batch\<rparr>)"
  proof (cases batch)
    case None
    with bp1 len have "buffer_pointer s1 < int (length (rows (store s1)))"
      by (simp add: read_count_def)
    with bp1(1) have "tensor_index (store s1) (buffer_pointer s1)
        = Inr (rows (store s1) ! nat (buffer_pointer s1))"
      by (simp add: tensor_index_def)
    with None show ?thesis
      by (simp add: next_read_def store_def b1 [unfolded None] read_count_def Let_def)
  next
    case (Some b)
    with cnt have b: "1 \<le> b" by (simp add: read_count_def)
    have "nat (buffer_pointer s1 + b) - nat (buffer_pointer s1) = nat b"
      using bp1(1) b by linarith
    then have "py_slice (rows (store s1)) (buffer_pointer s1) (buffer_pointer s1 + b)
        = take (nat b) (drop (nat (buffer_pointer s1)) (rows (store s1)))"
      using bp1(1) b by (simp add: py_slice_nonneg)
    with Some show ?thesis
      using b1 by (simp add: next_read_def store_def tensor_slice_def read_count_def Let_def)
  qed
  with nr have "next_acts e s batch =
               Some (Inr (case batch of
                            None \<Rightarrow> Vector (n_layers (store s1)) (width (store s1))
                                      (rows (store s1) ! nat (buffer_pointer s1))
                          | Some b \<Rightarrow> Batch ((store s1)\<lparr>rows :=
                                      take (nat b) (drop (nat (buffer_pointer s1)) (rows (store s1)))\<rparr>),
                          s1\<lparr>buffer_pointer := buffer_pointer s1 + read_count batch\<rparr>))"
    by (simp add: next_acts_def)
  with nr ok1 cfg1 lw bp1 show ?thesis by blast
qed

lemma low_water_count:
  "batch \<noteq> Some 0 \<Longrightarrow>
     low_water s batch
       = (buffer_size (cfg s) - (buffer_pointer s + read_count batch) < min_capacity (cfg s))"
  by (auto simp: low_water_def batch_or_1_def read_count_def split: option.splits)

text \<open>
  Reads of one row on the concrete instance: three reads print nothing; the fourth, the
  first with \<open>4 - (buffer_pointer + 1) < 1\<close>, refills once and leaves the pointer at 1.
\<close>

lemma size_one_reads_refill_once:
  "observe stdout (session example_env example_cfg 0 [Some 1, Some 1, Some 1]) = Some (Inr [])
   \<and> observe buffer_pointer (session example_env example_cfg 0 [Some 1, Some 1, Some 1])
       = Some (Inr 3)
   \<and> observe stdout (session example_env example_cfg 0 [Some 1, Some 1, Some 1, Some 1])
       = Some (Inr [''Refreshing the buffer!''])
   \<and> observe buffer_pointer (session example_env example_cfg 0 [Some 1, Some 1, Some 1, Some 1])
       = Some (Inr 1)"
  by code_simp

text \<open>
  C1 at the state the concrete instance reaches after construction and three reads of one
  row, where the pointer is 3 and nothing was printed: \<open>4 - (3 + 0) < 1\<close> is false, yet a
  read of count 0 refills. For every other count the condition the specification gives
  is the one the code tests (\<open>low_water_count\<close>).
\<close>

theorem zero_count_refills_early:
  "observe buffer_pointer (session example_env example_cfg 0 [Some 1, Some 1, Some 1])
     = Some (Inr 3)
   \<and> observe stdout (session example_env example_cfg 0 [Some 1, Some 1, Some 1]) = Some (Inr [])
   \<and> \<not> buffer_size example_cfg - (3 + 0) < min_capacity example_cfg
   \<and> observe stdout (session example_env example_cfg 0 [Some 1, Some 1, Some 1, Some 0])
     = Some (Inr [''Refreshing the buffer!''])"
  by code_simp

text \<open>
  C3, as stated, fails: on the concrete instance, whose buffer holds 4 rows, a read of 5
  returns a tensor of 4 rows and moves the pointer to 5.
\<close>

theorem next_oversized_counterexample:
  "returned_shape (session_next example_env example_cfg 0 [] (Some 5)) = Some (Inr [4, 2, 1])
   \<and> observe buffer_pointer (session example_env example_cfg 0 [Some 5]) = Some (Inr 5)"
  by code_simp

text \<open>
  C3, amended: a read of a count from 1 to the buffer size (1 when none is passed), on a
  buffer in a consistent state with a minimum capacity that is not negative and
  collaborators that keep their contracts, returns. With \<open>s1\<close> the buffer after the refill,
  if one was due, what is returned is the row at the pointer of \<open>s1\<close> when no count was
  passed, of shape (layers, width), and otherwise the count rows from the pointer of
  \<open>s1\<close> on, of shape (count, layers, width); the layers and the width are the config's.
  The pointer ends at the pointer of \<open>s1\<close> plus the count.
\<close>

theorem next_returns_count:
  fixes s :: "('a, 'g) buffer_state"
  assumes "state_ok s"
    and "0 \<le> buffer_pointer s" "buffer_pointer s \<le> buffer_size (cfg s)"
    and "0 < samples_per_seq (cfg s)" "0 < model_batch_size (cfg s)"
    and "final_layer (cfg s) = AInt fl"
    and "model_ok e (cfg s)" and "randperm_ok e"
    and "0 \<le> min_capacity (cfg s)"
    and "1 \<le> read_count batch" "read_count batch \<le> buffer_size (cfg s)"
  shows "\<exists>s1 out s' w. next_refresh e s batch = Some (Inr s1)
           \<and> next_acts e s batch = Some (Inr (out, s'))
           \<and> out = (case batch of
                      None \<Rightarrow> Vector (n_layers (store s1)) (width (store s1))
                                (rows (store s1) ! nat (buffer_pointer s1))
                    | Some b \<Rightarrow> Batch ((store s1)\<lparr>rows :=
                                take (nat b) (drop (nat (buffer_pointer s1)) (rows (store s1)))\<rparr>))
           \<and> act_size (cfg s) = Some (int w)
           \<and> out_shape out = (case batch of
                                None \<Rightarrow> [length (layers (cfg s)), w]
                              | Some b \<Rightarrow> [nat b, length (layers (cfg s)), w])
           \<and> buffer_pointer s' = buffer_pointer s1 + read_count batch"
proof -
  from next_total [OF assms]
  obtain s1 where nr: "next_refresh e s batch = Some (Inr s1)" and ok1: "state_ok s1"
    and cfg1: "cfg s1 = cfg s" and bp1: "0 \<le> buffer_pointer s1"
      "buffer_pointer s1 + read_count batch \<le> buffer_size (cfg s)"
    and na: "next_acts e s batch =
               Some (Inr (case batch of
                            None \<Rightarrow> Vector (n_layers (store s1)) (width (store s1))
                                      (rows (store s1) ! nat (buffer_pointer s1))
                          | Some b \<Rightarrow> Batch ((store s1)\<lparr>rows :=
                                      take (nat b) (drop (nat (buffer_pointer s1)) (rows (store s1)))\<rparr>),
                          s1\<lparr>buffer_pointer := buffer_pointer s1 + read_count batch\<rparr>))"
    by blast
  let ?out = "case batch of
                None \<Rightarrow> Vector (n_layers (store s1)) (width (store s1))
                          (rows (store s1) ! nat (buffer_pointer s1))
              | Some b \<Rightarrow> Batch ((store s1)\<lparr>rows :=
                          take (nat b) (drop (nat (buffer_pointer s1)) (rows (store s1)))\<rparr>)"
  from ok1 have len: "int (length (rows (store s1))) = buffer_size (cfg s)"
    and nl: "n_layers (store s1) = length (layers (cfg s))"
    and wd: "act_size (cfg s) = Some (int (width (store s1)))"
    by (simp_all add: state_ok_def cfg1)
  have "out_shape ?out = (case batch of
                            None \<Rightarrow> [length (layers (cfg s)), width (store s1)]
                          | Some b \<Rightarrow> [nat b, length (layers (cfg s)), width (store s1)])"
  proof (cases batch)
    case None
    then show ?thesis by (simp add: nl)
  next
    case (Some b)
    with bp1 len have "nat (buffer_pointer s1) + nat b \<le> length (rows (store s1))"
      using assms(10) by (simp add: read_count_def)
    with Some show ?thesis by (simp add: shape_def nl)
  qed
  with nr na wd show ?thesis
    by (intro exI [of _ s1] exI [of _ ?out]
        exI [of _ "s1\<lparr>buffer_pointer := buffer_pointer s1 + read_count batch\<rparr>"]
        exI [of _ "width (store s1)"]) simp
qed

theorem next_returns_count_witness:
  "state_ok (example_state 0) \<and> 0 \<le> buffer_pointer (example_state 0)
   \<and> buffer_pointer (example_state 0) \<le> buffer_size (cfg (example_state 0))
   \<and> 0 < samples_per_seq (cfg (example_state 0)) \<and> 0 < model_batch_size (cfg (example_state 0))
   \<and> final_layer (cfg (example_state 0)) = AInt 1
   \<and> model_ok example_env (cfg (example_state 0)) \<and> randperm_ok example_env
   \<and> 0 \<le> min_capacity (cfg (example_state 0))
   \<and> 1 \<le> read_count (Some 2) \<and> read_count (Some 2) \<le> buffer_size (cfg (example_state 0))
   \<and> (\<exists>s1 out s'. next_refresh example_env (example_state 0) (Some 2) = Some (Inr s1)
         \<and> next_acts example_env (example_state 0) (Some 2) = Some (Inr (out, s'))
         \<and> out = Batch ((store s1)\<lparr>rows :=
                    take 2 (drop (nat (buffer_pointer s1)) (rows (store s1)))\<rparr>)
         \<and> out_shape out = [2, 2, 1]
         \<and> buffer_pointer s' = buffer_pointer s1 + 2)"
proof -
  have ok: "state_ok (example_state 0)" by (simp add: example_state_ok)
  have mo: "model_ok example_env (cfg (example_state 0))"
    by (simp add: example_state_vals example_model_ok)
  have rest: "0 \<le> buffer_pointer (example_state 0)"
    "buffer_pointer (example_state 0) \<le> buffer_size (cfg (example_state 0))"
    "0 < samples_per_seq (cfg (example_state 0))" "0 < model_batch_size (cfg (example_state 0))"
    "final_layer (cfg (example_state 0)) = AInt 1"
    by (simp_all add: example_state_vals example_cfg_vals)
  have cnt: "0 \<le> min_capacity (cfg (example_state 0))"
    "1 \<le> read_count (Some 2)" "read_count (Some 2) \<le> buffer_size (cfg (example_state 0))"
    by (simp_all add: example_state_vals example_cfg_vals read_count_def)
  have "act_size (cfg (example_state 0)) = Some 1" "layers (cfg (example_state 0)) = [AInt 0, AInt 1]"
    by (simp_all add: example_state_vals example_cfg_vals)
  with next_returns_count [OF ok rest mo example_randperm_ok cnt]
  have "\<exists>s1 out s'. next_refresh example_env (example_state 0) (Some 2) = Some (Inr s1)
         \<and> next_acts example_env (example_state 0) (Some 2) = Some (Inr (out, s'))
         \<and> out = Batch ((store s1)\<lparr>rows :=
                    take 2 (drop (nat (buffer_pointer s1)) (rows (store s1)))\<rparr>)
         \<and> out_shape out = [2, 2, 1]
         \<and> buffer_pointer s' = buffer_pointer s1 + 2"
    by (auto simp: read_count_def)
  with ok mo rest cnt example_randperm_ok show ?thesis by blast
qed

text \<open>
  C10: a read of count 0 tests the low-water condition with 1 in the place of the count
  and refills or not exactly as a read with no count does. When that first step returns,
  as it does when no refill is due and, under the contracts, when one is, the read returns
  a tensor with no rows, of shape (0, layers, width), and moves the pointer by 1.
\<close>

theorem next_zero_count:
  fixes s :: "('a, 'g) buffer_state"
  shows
  "low_water s (Some 0) = (buffer_size (cfg s) - (buffer_pointer s + 1) < min_capacity (cfg s))
   \<and> next_refresh e s (Some 0) = next_refresh e s None
   \<and> (\<forall>s1. next_refresh e s (Some 0) = Some (Inr s1) \<longrightarrow>
         next_acts e s (Some 0)
           = Some (Inr (Batch ((store s1)\<lparr>rows := []\<rparr>),
                        s1\<lparr>buffer_pointer := buffer_pointer s1 + 1\<rparr>))
         \<and> out_shape (Batch ((store s1)\<lparr>rows := []\<rparr>))
             = [0, n_layers (store s1), width (store s1)])
   \<and> (state_ok s \<and> 0 \<le> buffer_pointer s \<and> buffer_pointer s \<le> buffer_size (cfg s)
        \<and> 0 < samples_per_seq (cfg s) \<and> 0 < model_batch_size (cfg s)
        \<and> final_layer (cfg s) = AInt fl \<and> model_ok e (cfg s) \<and> randperm_ok e \<longrightarrow>
       (\<exists>s1. next_refresh e s (Some 0) = Some (Inr s1)))"
proof (intro conjI impI)
  show "low_water s (Some 0)
      = (buffer_size (cfg s) - (buffer_pointer s + 1) < min_capacity (cfg s))"
    by (simp add: low_water_def batch_or_1_def)
  show "next_refresh e s (Some 0) = next_refresh e s None"
    by (simp add: next_refresh_def low_water_def batch_or_1_def)
  show "\<forall>s1. next_refresh e s (Some 0) = Some (Inr s1) \<longrightarrow>
         next_acts e s (Some 0)
           = Some (Inr (Batch ((store s1)\<lparr>rows := []\<rparr>),
                        s1\<lparr>buffer_pointer := buffer_pointer s1 + 1\<rparr>))
         \<and> out_shape (Batch ((store s1)\<lparr>rows := []\<rparr>))
             = [0, n_layers (store s1), width (store s1)]"
    by (simp add: next_acts_def next_read_def batch_or_1_def tensor_slice_def py_slice_empty
        store_def shape_def Let_def)
next
  assume h: "state_ok s \<and> 0 \<le> buffer_pointer s \<and> buffer_pointer s \<le> buffer_size (cfg s)
        \<and> 0 < samples_per_seq (cfg s) \<and> 0 < model_batch_size (cfg s)
        \<and> final_layer (cfg s) = AInt fl \<and> model_ok e (cfg s) \<and> randperm_ok e"
  show "\<exists>s1. next_refresh e s (Some 0) = Some (Inr s1)"
  proof (cases "low_water s (Some 0)")
    case False
    then show ?thesis by (simp add: next_refresh_def)
  next
    case True
    let ?s = "s\<lparr>stdout := stdout s @ [''Refreshing the buffer!'']\<rparr>"
    from h have "state_ok ?s" by (simp add: state_ok_def store_def)
    from refresh_total [OF this, of fl e] h
    obtain s1 where "refresh e ?s = Some (Inr s1)" by auto
    with True show ?thesis by (simp add: next_refresh_def)
  qed
qed

theorem next_zero_count_witness:
  "next_refresh example_env (example_state 2) (Some 0) = Some (Inr (example_state 2))
   \<and> next_acts example_env (example_state 2) (Some 0)
       = Some (Inr (Batch \<lparr>n_layers = 2, width = 1, rows = []\<rparr>, example_state 3))
   \<and> out_shape (Batch \<lparr>n_layers = 2, width = 1, rows = [] :: nat list list list\<rparr>) = [0, 2, 1]
   \<and> state_ok (example_state 3) \<and> 0 \<le> buffer_pointer (example_state 3)
   \<and> buffer_pointer (example_state 3) \<le> buffer_size (cfg (example_state 3))
   \<and> 0 < samples_per_seq (cfg (example_state 3)) \<and> 0 < model_batch_size (cfg (example_state 3))
   \<and> final_layer (cfg (example_state 3)) = AInt 1
   \<and> model_ok example_env (cfg (example_state 3)) \<and> randperm_ok example_env
   \<and> low_water (example_state 3) (Some 0)
   \<and> (\<exists>s1. next_refresh example_env (example_state 3) (Some 0) = Some (Inr s1)
         \<and> next_acts example_env (example_state 3) (Some 0)
             = Some (Inr (Batch ((store s1)\<lparr>rows := []\<rparr>),
                          s1\<lparr>buffer_pointer := buffer_pointer s1 + 1\<rparr>)))"
proof -
  have nr: "next_refresh example_env (example_state 2) (Some 0) = Some (Inr (example_state 2))"
    by (simp add: next_refresh_def low_water_def batch_or_1_def example_state_vals example_cfg_vals)
  have st: "(example_state 2)\<lparr>buffer_pointer := 3\<rparr> = example_state 3"
    by (simp add: example_state_def)
  from next_zero_count [of "example_state 2" example_env] nr
  have a: "next_acts example_env (example_state 2) (Some 0)
       = Some (Inr (Batch \<lparr>n_layers = 2, width = 1, rows = []\<rparr>, example_state 3))
   \<and> out_shape (Batch \<lparr>n_layers = 2, width = 1, rows = [] :: nat list list list\<rparr>) = [0, 2, 1]"
    by (simp add: st example_state_vals shape_def)
  have ok: "state_ok (example_state 3)" by (simp add: example_state_ok)
  have mo: "model_ok example_env (cfg (example_state 3))"
    by (simp add: example_state_vals example_model_ok)
  have rest: "0 \<le> buffer_pointer (example_state 3)"
    "buffer_pointer (example_state 3) \<le> buffer_size (cfg (example_state 3))"
    "0 < samples_per_seq (cfg (example_state 3))" "0 < model_batch_size (cfg (example_state 3))"
    "final_layer (cfg (example_state 3)) = AInt 1"
    by (simp_all add: example_state_vals example_cfg_vals)
  note t = next_zero_count [of "example_state 3" example_env 1]
  have lw: "low_water (example_state 3) (Some 0)"
    using t by (simp add: example_state_vals example_cfg_vals)
  from t ok mo rest example_randperm_ok
  obtain s1 where "next_refresh example_env (example_state 3) (Some 0) = Some (Inr s1)" by blast
  with t have "\<exists>s1. next_refresh example_env (example_state 3) (Some 0) = Some (Inr s1)
         \<and> next_acts example_env (example_state 3) (Some 0)
             = Some (Inr (Batch ((store s1)\<lparr>rows := []\<rparr>),
                          s1\<lparr>buffer_pointer := buffer_pointer s1 + 1\<rparr>))"
    by blast
  with nr a ok mo rest example_randperm_ok lw show ?thesis by blast
qed

section \<open>The range of the read cursor\<close>

text \<open>
  C8, as stated, fails: on the concrete instance, whose buffer size is 4, a read of 5
  after construction leaves the pointer at 5.
\<close>

theorem cursor_out_of_range_counterexample:
  "observe cursor_in_range (session example_env example_cfg 0 [Some 5]) = Some (Inr False)"
  by code_simp

text \<open>
  C8, amended: construction and refill, when they return, leave the pointer at 0, within
  the range; a read of a count from 1 to the buffer size (1 when none is passed) that
  returns, from a pointer that is not negative and with a minimum capacity that is not
  negative, leaves the pointer within the range.
\<close>

theorem cursor_range_preserved:
  fixes s :: "('a::zero, 'g) buffer_state"
  shows
  "(ActivationsBuffer_init e c g = Some (Inr s0) \<longrightarrow> buffer_pointer s0 = 0 \<and> cursor_in_range s0)
   \<and> (refresh e s = Some (Inr s') \<and> 0 \<le> buffer_size (cfg s) \<longrightarrow>
        buffer_pointer s' = 0 \<and> cursor_in_range s')
   \<and> (next_acts e s batch = Some (Inr (out, s'')) \<and> 0 \<le> buffer_pointer s
        \<and> 0 \<le> min_capacity (cfg s)
        \<and> 1 \<le> read_count batch \<and> read_count batch \<le> buffer_size (cfg s) \<longrightarrow>
        cursor_in_range s'')"
proof (intro conjI impI)
  assume init: "ActivationsBuffer_init e c g = Some (Inr s0)"
  then obtain z si where z: "zeros (buffer_size c) (length (layers c))
        (case act_size c of None \<Rightarrow> d_mlp e | Some a \<Rightarrow> a) = Inr (z :: 'a tensor)"
    and r: "refresh e si = Some (Inr s0)" and c: "buffer_size (cfg si) = buffer_size c"
    by (auto simp: ActivationsBuffer_init_def Let_def split: sum.splits)
  from z have C: "0 \<le> buffer_size c" by (auto simp: zeros_def split: if_splits)
  from refresh_result(1) [OF r] show bp: "buffer_pointer s0 = 0" .
  from refresh_result(2) [OF r] c C bp show "cursor_in_range s0"
    by (simp add: cursor_in_range_def)
next
  assume h: "refresh e s = Some (Inr s') \<and> 0 \<le> buffer_size (cfg s)"
  then have r: "refresh e s = Some (Inr s')" by simp
  from refresh_result(1) [OF r] show bp: "buffer_pointer s' = 0" .
  from refresh_result(2) [OF r] h bp show "cursor_in_range s'"
    by (simp add: cursor_in_range_def)
next
  assume h: "next_acts e s batch = Some (Inr (out, s'')) \<and> 0 \<le> buffer_pointer s
        \<and> 0 \<le> min_capacity (cfg s)
        \<and> 1 \<le> read_count batch \<and> read_count batch \<le> buffer_size (cfg s)"
  then have b1: "batch_or_1 batch = read_count batch" by (simp add: batch_or_1_count)
  from h obtain s1 where nr: "next_refresh e s batch = Some (Inr s1)"
    and rd: "next_read s1 batch = Inr (out, s'')"
    by (auto simp: next_acts_def split: option.splits sum.splits)
  from rd have s'': "s'' = s1\<lparr>buffer_pointer := buffer_pointer s1 + read_count batch\<rparr>"
    by (auto simp: next_read_def Let_def b1 split: option.splits sum.splits)
  have "cfg s1 = cfg s \<and> 0 \<le> buffer_pointer s1
      \<and> buffer_pointer s1 + read_count batch \<le> buffer_size (cfg s)"
  proof (cases "low_water s batch")
    case True
    with nr have r: "refresh e (s\<lparr>stdout := stdout s @ [''Refreshing the buffer!'']\<rparr>) = Some (Inr s1)"
      by (simp add: next_refresh_def)
    from refresh_result(1,2) [OF r] h show ?thesis by simp
  next
    case False
    with nr have "s1 = s" by (simp add: next_refresh_def)
    with False h show ?thesis by (simp add: low_water_def b1)
  qed
  with h show "cursor_in_range s''" by (simp add: cursor_in_range_def s'')
qed

theorem cursor_range_preserved_witness:
  "(\<exists>s0. ActivationsBuffer_init example_env example_cfg 0 = Some (Inr s0)
        \<and> buffer_pointer s0 = 0 \<and> cursor_in_range s0)
   \<and> 0 \<le> buffer_size (cfg (example_state 3))
   \<and> (\<exists>s'. refresh example_env (example_state 3) = Some (Inr s')
        \<and> buffer_pointer s' = 0 \<and> cursor_in_range s')
   \<and> 0 \<le> buffer_pointer (example_state 3) \<and> 0 \<le> min_capacity (cfg (example_state 3))
   \<and> 1 \<le> read_count (Some 4) \<and> read_count (Some 4) \<le> buffer_size (cfg (example_state 3))
   \<and> (\<exists>out s''. next_acts example_env (example_state 3) (Some 4) = Some (Inr (out, s''))
        \<and> cursor_in_range s'')"
proof -
  have inv: "config_invariant example_cfg"
    by (simp add: config_invariant_def example_cfg_def)
  from init_total [OF inv, of 1 1 example_env 0] example_model_ok example_randperm_ok
  obtain s0 where i: "ActivationsBuffer_init example_env example_cfg 0 = Some (Inr s0)"
    by (auto simp: example_cfg_def example_env_def)
  have ok: "state_ok (example_state 3)" by (simp add: example_state_ok)
  have vals: "0 \<le> buffer_size (cfg (example_state 3))" "0 \<le> buffer_pointer (example_state 3)"
    "0 \<le> min_capacity (cfg (example_state 3))" "1 \<le> read_count (Some 4)"
    "read_count (Some 4) \<le> buffer_size (cfg (example_state 3))"
    by (simp_all add: example_state_vals example_cfg_vals read_count_def)
  from refresh_total [OF ok, of 1 example_env] example_model_ok example_randperm_ok
  obtain s' where r: "refresh example_env (example_state 3) = Some (Inr s')"
    by (auto simp: example_state_vals example_cfg_vals)
  from next_total [OF ok, of 1 example_env "Some 4"] example_model_ok example_randperm_ok
  obtain out s'' where n: "next_acts example_env (example_state 3) (Some 4) = Some (Inr (out, s''))"
    by (auto simp: example_state_vals example_cfg_vals read_count_def)
  note t = cursor_range_preserved [of example_env example_cfg 0 s0 "example_state 3" s' "Some 4" out s'']
  from t i have "\<exists>s0. ActivationsBuffer_init example_env example_cfg 0 = Some (Inr s0)
        \<and> buffer_pointer s0 = 0 \<and> cursor_in_range s0" by blast
  moreover from t r vals have "\<exists>s'. refresh example_env (example_state 3) = Some (Inr s')
        \<and> buffer_pointer s' = 0 \<and> cursor_in_range s'" by blast
  moreover from t n vals have "\<exists>out s''. next_acts example_env (example_state 3) (Some 4) = Some (Inr (out, s''))
        \<and> cursor_in_range s''" by blast
  ultimately show ?thesis using vals by blast
qed

section \<open>The identity of the store\<close>

text \<open>
  C5, as stated, fails: in the concrete instance the store the buffer holds after
  construction is the tensor 1, not the tensor 0 allocated by \<^verbatim>\<open>torch.zeros\<close>, and
  after four reads of one row, the last of which refills, it is the tensor 2.
\<close>

theorem store_replaced_counterexample:
  "observe buffer (session example_env example_cfg 0 []) = Some (Inr 1)
   \<and> observe buffer (session example_env example_cfg 0 [Some 1, Some 1, Some 1, Some 1])
       = Some (Inr 2)"
  by code_simp

text \<open>
  C5, amended: every refill that returns rebinds the store to a tensor allocated in that
  call, the rotated copy, of the same shape; the tensor held before is left as it was.
  The rounds of the loop allocate nothing and write into that copy only. A read that
  does not refill leaves the store and every tensor as they were.
\<close>

theorem refresh_rebinds_store:
  fixes s :: "('a, 'g) buffer_state"
  shows
  "(refresh e s = Some (Inr s') \<and> buffer s < next_id s \<longrightarrow>
      buffer s' = next_id s \<and> buffer s' \<noteq> buffer s \<and> next_id s' = Suc (next_id s)
      \<and> heap s' (buffer s) = heap s (buffer s)
      \<and> shape (store s') = shape (store s))
   \<and> (refresh_loop e s = Some (Inr s') \<longrightarrow>
      buffer s' = buffer s \<and> next_id s' = next_id s
      \<and> (\<forall>i. i \<noteq> buffer s \<longrightarrow> heap s' i = heap s i))
   \<and> (\<not> low_water s batch \<and> next_acts e s batch = Some (Inr (out, s')) \<longrightarrow>
      buffer s' = buffer s \<and> heap s' = heap s)"
proof (intro conjI impI)
  assume h: "refresh e s = Some (Inr s') \<and> buffer s < next_id s"
  then have r: "refresh e s = Some (Inr s')" and lt: "buffer s < next_id s" by simp_all
  from refresh_result(4) [OF r] show b: "buffer s' = next_id s" .
  from b lt show "buffer s' \<noteq> buffer s" by simp
  from refresh_result(5) [OF r] show "next_id s' = Suc (next_id s)" .
  from refresh_result(7) [OF r] lt show "heap s' (buffer s) = heap s (buffer s)" by simp
  from refresh_result(8) [OF r] show "shape (store s') = shape (store s)" .
next
  assume "refresh_loop e s = Some (Inr s')"
  from refresh_loop_frame [OF this] have f: "frame s s'" by simp
  then show "buffer s' = buffer s" "next_id s' = next_id s"
    "\<forall>i. i \<noteq> buffer s \<longrightarrow> heap s' i = heap s i"
    by (simp_all add: frame_def)
next
  assume h: "\<not> low_water s batch \<and> next_acts e s batch = Some (Inr (out, s'))"
  then have "next_read s batch = Inr (out, s')"
    by (auto simp: next_acts_def next_refresh_def)
  then have "s' = s\<lparr>buffer_pointer := buffer_pointer s + batch_or_1 batch\<rparr>"
    by (auto simp: next_read_def Let_def split: option.splits sum.splits)
  then show "buffer s' = buffer s" "heap s' = heap s" by simp_all
qed

theorem refresh_rebinds_store_witness:
  "buffer (example_state 3) < next_id (example_state 3)
   \<and> (\<exists>s'. refresh example_env (example_state 3) = Some (Inr s')
         \<and> buffer s' = 2 \<and> buffer s' \<noteq> buffer (example_state 3)
         \<and> heap s' 1 = heap (example_state 3) 1
         \<and> shape (store s') = [4, 2, 1])
   \<and> \<not> low_water (example_state 0) (Some 1)
   \<and> (\<exists>out s'. next_acts example_env (example_state 0) (Some 1) = Some (Inr (out, s'))
         \<and> buffer s' = 1 \<and> heap s' = heap (example_state 0))"
proof -
  have lt: "buffer (example_state 3) < next_id (example_state 3)"
    by (simp add: example_state_vals)
  have ok: "state_ok (example_state 3)" by (simp add: example_state_ok)
  from refresh_total [OF ok, of 1 example_env] example_model_ok example_randperm_ok
  obtain s' where r: "refresh example_env (example_state 3) = Some (Inr s')"
    by (auto simp: example_state_vals example_cfg_vals)
  from refresh_rebinds_store [of example_env "example_state 3" s'] r lt
  have a: "\<exists>s'. refresh example_env (example_state 3) = Some (Inr s')
         \<and> buffer s' = 2 \<and> buffer s' \<noteq> buffer (example_state 3)
         \<and> heap s' 1 = heap (example_state 3) 1
         \<and> shape (store s') = [4, 2, 1]"
    by (auto simp: example_state_vals shape_def)
  have nlw: "\<not> low_water (example_state 0) (Some 1)"
    by (simp add: low_water_def batch_or_1_def example_state_vals example_cfg_vals)
  then obtain out s'' where n: "next_acts example_env (example_state 0) (Some 1) = Some (Inr (out, s''))"
    by (simp add: next_acts_def next_refresh_def next_read_def Let_def)
  from refresh_rebinds_store [of example_env "example_state 0" s'' "Some 1" out] nlw n
  have "\<exists>out s'. next_acts example_env (example_state 0) (Some 1) = Some (Inr (out, s'))
         \<and> buffer s' = 1 \<and> heap s' = heap (example_state 0)"
    by (auto simp: example_state_vals)
  with lt a nlw show ?thesis by blast
qed

section \<open>Seeding\<close>

lemma seed_rng_cases:
  "seed_rng e None g = g" "seed_rng e (Some 0) g = g"
  "n \<noteq> 0 \<Longrightarrow> seed_rng e (Some n) g = manual_seed e n"
  by (simp_all add: seed_rng_def)

text \<open>
  C9 at the seed 0: the generator is left in the state it was in, whatever that is, and
  in the concrete instance, whose config has the seed 0, construction from the generator
  states 0 and 7 draws different positions: the stores hold the activations of the
  positions 0, 1 and of the positions 1, 0 of each text.
\<close>

theorem seed_zero_not_seeded:
  "seed_rng e (Some 0) g = g
   \<and> seed example_cfg = Some 0
   \<and> observe rng (session example_env example_cfg 0 []) = Some (Inr 1)
   \<and> observe rng (session example_env example_cfg 7 []) = Some (Inr 8)
   \<and> observe (rows \<circ> store) (session example_env example_cfg 0 [])
       = Some (Inr [[[10], [10]], [[11], [11]], [[20], [20]], [[21], [21]]])
   \<and> observe (rows \<circ> store) (session example_env example_cfg 7 [])
       = Some (Inr [[[11], [11]], [[10], [10]], [[21], [21]], [[20], [20]]])"
proof -
  have "seed example_cfg = Some 0
   \<and> observe rng (session example_env example_cfg 0 []) = Some (Inr 1)
   \<and> observe rng (session example_env example_cfg 7 []) = Some (Inr 8)
   \<and> observe (rows \<circ> store) (session example_env example_cfg 0 [])
       = Some (Inr [[[10], [10]], [[11], [11]], [[20], [20]], [[21], [21]]])
   \<and> observe (rows \<circ> store) (session example_env example_cfg 7 [])
       = Some (Inr [[[11], [11]], [[10], [10]], [[21], [21]], [[20], [20]]])"
    by code_simp
  then show ?thesis by (simp add: seed_rng_def)
qed

end
